theory Spec2Isabelle
  imports Complex_Main "HOL-Library.Word" "HOL-Library.Sublist"
begin

section \<open>The HTTP/1.1 pipelining strategy (Pipeline.js)\<close>

text \<open>
  The class \<^verbatim>\<open>Pipeline\<close> keeps a queue of pending requests, routes the parser's events
  to the first-in request and relays body bytes to a sink. The embedding follows the
  JavaScript statement by statement:
  \<^item> the objects the class builds are records; a property that may be
    \<^verbatim>\<open>undefined\<close> or \<^verbatim>\<open>null\<close> is an \<open>option\<close>;
  \<^item> an exception is the value \<open>Threw\<close>, which carries the state as the throw left it
    (the mutations made before a throw stay);
  \<^item> the objects of the collaborators (streams, the uWebSockets response, the
    callbacks) are addresses; a call of one of their methods is an entry of the
    \<open>trace\<close>, in program order, and what such a method returns is an argument of the
    modelled function;
  \<^item> a reading of the clock (\<^verbatim>\<open>process.hrtime()\<close>) is an argument as well.
  Callbacks are taken to return normally and not to call back into the pipeline.
\<close>

subsection \<open>Values of the runtime\<close>

type_synonym buffer = "8 word list"

text \<open>\<^verbatim>\<open>process.hrtime()\<close> yields the pair \<^verbatim>\<open>[seconds, nanoseconds]\<close>.\<close>

type_synonym hrtime = "int \<times> int"

type_synonym header_map = "(string \<times> string) list"

datatype js_error = E_PIPELINE_OVERFLOW | E_PIPELINE_ABORTED | TypeError

text \<open>
  \<^verbatim>\<open>process.hrtime(time)\<close>: the difference between the clock (\<open>now\<close>) and an earlier
  reading, with a borrow when the nanoseconds go negative.
\<close>

definition hrtime_since :: "hrtime \<Rightarrow> hrtime \<Rightarrow> hrtime" where
  "hrtime_since now time =
     (let sec = fst now - fst time; nsec = snd now - snd time
      in if nsec < 0 then (sec - 1, nsec + 1000000000) else (sec, nsec))"

text \<open>
  \<^verbatim>\<open>Buffer.prototype.subarray(start)\<close>: a negative start counts from the end, and the
  start is clamped to the buffer.
\<close>

definition subarray :: "buffer \<Rightarrow> int \<Rightarrow> buffer" where
  "subarray data start =
     (let len = int (length data);
          s = (if start < 0 then max (len + start) 0 else min start len)
      in drop (nat s) data)"

subsection \<open>Requests, responses and the queue's entries\<close>

text \<open>
  Of the request the class reads two properties: \<^verbatim>\<open>request.response\<close>, the paired
  uWebSockets response (the address of the sink), and \<^verbatim>\<open>request.body\<close>, the outgoing
  body stream.
\<close>

record request =
  req_response :: "nat option"
  req_body :: "nat option"

record metadata =
  startTime :: hrtime
  bytes :: nat
  headersTime :: "hrtime option"
  duration :: "real option"

record response =
  request :: request
  body :: "nat option"
  headers :: header_map
  statusCode :: "int option"
  statusMessage :: string
  metadata :: metadata

record pipelined_request =
  response :: response
  callback :: nat

subsection \<open>The collaborators: sinks and the trace of calls\<close>

text \<open>
  On the uWebSockets response the relay writes the property \<^verbatim>\<open>abOffset\<close> and registers
  a handler with \<^verbatim>\<open>onWritable\<close>. The handler is a closure over the chunk and over the
  header object of the response; it is kept as these two values.
\<close>

record uws_response =
  abOffset :: "int option"
  writableHandler :: "(buffer \<times> header_map) option"

datatype effect =
    Accepted nat "pipelined_request list"
  | Completion nat "js_error option" response
  | StreamPush nat buffer
  | StreamDestroy nat "js_error option"
  | TryEnd nat buffer "string option"

text \<open>
  \<open>Accepted c q\<close>: the callback \<open>c\<close> given to \<^verbatim>\<open>scheduleSend\<close> is called, and \<open>q\<close> is the
  queue as it stands at the call. \<open>Completion c err r\<close>: \<^verbatim>\<open>pipelinedRequest.callback(err, r)\<close>.
  \<open>StreamPush\<close> and \<open>StreamDestroy\<close>: \<^verbatim>\<open>push(data)\<close> and \<^verbatim>\<open>destroy(err)\<close> on a stream.
  \<open>TryEnd a data total\<close>: \<^verbatim>\<open>tryEnd(data, total)\<close> on the sink at address \<open>a\<close>.
\<close>

record state =
  pendingRequests :: "pipelined_request list"
  maxRequests :: int
  sinks :: "nat \<Rightarrow> uws_response"
  trace :: "effect list"

datatype outcome = Returned state | Threw js_error state

fun state_of :: "outcome \<Rightarrow> state" where
  "state_of (Returned st) = st"
| "state_of (Threw e st) = st"

fun thrown :: "outcome \<Rightarrow> js_error option" where
  "thrown (Returned st) = None"
| "thrown (Threw e st) = Some e"

definition emit :: "effect \<Rightarrow> state \<Rightarrow> state" where
  "emit e st = st\<lparr>trace := trace st @ [e]\<rparr>"

subsection \<open>The class\<close>

text \<open>The constructor; the two handlers it registers are \<open>on_headers\<close> and \<open>on_body_chunk\<close> below.\<close>

definition Pipeline :: "int \<Rightarrow> state" where
  "Pipeline m =
     \<lparr>pendingRequests = [], maxRequests = m,
      sinks = (\<lambda>a. \<lparr>abOffset = None, writableHandler = None\<rparr>), trace = []\<rparr>"

definition acceptsMoreRequests :: "state \<Rightarrow> bool" where
  "acceptsMoreRequests st \<longleftrightarrow>
     maxRequests st = 0 \<or> int (length (pendingRequests st)) < maxRequests st"

definition new_request :: "hrtime \<Rightarrow> request \<Rightarrow> nat \<Rightarrow> pipelined_request" where
  "new_request now req responseCallback =
     \<lparr>response =
        \<lparr>request = req, body = None, headers = [], statusCode = None, statusMessage = [],
         metadata = \<lparr>startTime = now, bytes = 0, headersTime = None, duration = None\<rparr>\<rparr>,
      callback = responseCallback\<rparr>"

definition scheduleSend :: "hrtime \<Rightarrow> request \<Rightarrow> nat \<Rightarrow> nat \<Rightarrow> state \<Rightarrow> outcome" where
  "scheduleSend now req responseCallback onAccepted st =
     (if maxRequests st > 0 \<and> int (length (pendingRequests st)) \<ge> maxRequests st
      then Threw E_PIPELINE_OVERFLOW st
      else
        let pushed = st\<lparr>pendingRequests :=
                         pendingRequests st @ [new_request now req responseCallback]\<rparr>
        in Returned (emit (Accepted onAccepted (pendingRequests pushed)) pushed))"

definition peek :: "state \<Rightarrow> pipelined_request option" where
  "peek st = (case pendingRequests st of [] \<Rightarrow> None | p # ps \<Rightarrow> Some p)"

text \<open>A write through the reference \<^verbatim>\<open>peek()\<close> returned changes the first element in place.\<close>

definition update_head :: "(response \<Rightarrow> response) \<Rightarrow> state \<Rightarrow> state" where
  "update_head f st =
     (case pendingRequests st of
        [] \<Rightarrow> st
      | p # ps \<Rightarrow> st\<lparr>pendingRequests := p\<lparr>response := f (response p)\<rparr> # ps\<rparr>)"

text \<open>\<^verbatim>\<open>this.peek().response.metadata\<close> is evaluated before the test: on an empty queue it throws.\<close>

definition addByteCount :: "nat \<Rightarrow> state \<Rightarrow> outcome" where
  "addByteCount count st =
     (case peek st of
        None \<Rightarrow> Threw TypeError st
      | Some p \<Rightarrow>
          Returned (update_head
            (\<lambda>r. r\<lparr>metadata := (metadata r)\<lparr>bytes := bytes (metadata r) + count\<rparr>\<rparr>) st))"

text \<open>
  The write inside \<^verbatim>\<open>cork\<close>: \<open>lastOffset\<close> is what \<^verbatim>\<open>getWriteOffset()\<close> returned, \<open>res\<close> is
  the pair \<^verbatim>\<open>[ok, done]\<close> that \<^verbatim>\<open>tryEnd\<close> returns.
\<close>

definition relay :: "nat \<Rightarrow> header_map \<Rightarrow> buffer \<Rightarrow> int \<Rightarrow> bool \<times> bool \<Rightarrow> state \<Rightarrow> state" where
  "relay a hs data lastOffset res st =
     (let st1 = emit (TryEnd a data (map_of hs ''content-length'')) st
      in if snd res then st1
         else if \<not> fst res then
           st1\<lparr>sinks := (sinks st1)
                 (a := \<lparr>abOffset = Some lastOffset, writableHandler = Some (data, hs)\<rparr>)\<rparr>
         else st1)"

definition addBody :: "buffer \<Rightarrow> int \<Rightarrow> bool \<times> bool \<Rightarrow> state \<Rightarrow> outcome" where
  "addBody data lastOffset res st =
     (case peek st of
        None \<Rightarrow> Threw TypeError st
      | Some p0 \<Rightarrow>
          (case addByteCount (length data) st of
             Threw e st1 \<Rightarrow> Threw e st1
           | Returned st1 \<Rightarrow>
               (case req_response (request (response p0)) of
                  Some a \<Rightarrow> Returned (relay a (headers (response p0)) data lastOffset res st1)
                | None \<Rightarrow>
                    (case body (response p0) of
                       None \<Rightarrow> Threw TypeError st1
                     | Some b \<Rightarrow> Returned (emit (StreamPush b data) st1)))))"

text \<open>
  The handler given to \<^verbatim>\<open>onWritable\<close>, called by the sink at address \<open>a\<close> with \<open>offset\<close>;
  \<open>res\<close> is what the \<^verbatim>\<open>tryEnd\<close> inside returns. The result is what the handler returns
  to the sink (\<open>None\<close> when no handler is registered). With \<^verbatim>\<open>abOffset\<close> undefined the
  index is \<^verbatim>\<open>NaN\<close>, which \<^verbatim>\<open>subarray\<close> reads as 0.
\<close>

definition writable :: "nat \<Rightarrow> int \<Rightarrow> bool \<times> bool \<Rightarrow> state \<Rightarrow> bool option \<times> state" where
  "writable a offset res st =
     (case writableHandler (sinks st a) of
        None \<Rightarrow> (None, st)
      | Some (data, hs) \<Rightarrow>
          (let start = (case abOffset (sinks st a) of None \<Rightarrow> 0 | Some saved \<Rightarrow> offset - saved)
           in (Some (fst res),
               emit (TryEnd a (subarray data start) (map_of hs ''content-length'')) st)))"

definition setStatus :: "int \<Rightarrow> string \<Rightarrow> state \<Rightarrow> state" where
  "setStatus code msg st =
     (case peek st of
        None \<Rightarrow> st
      | Some p \<Rightarrow> update_head (\<lambda>r. r\<lparr>statusCode := Some code, statusMessage := msg\<rparr>) st)"

definition setHeaders :: "hrtime \<Rightarrow> header_map \<Rightarrow> state \<Rightarrow> state" where
  "setHeaders now hs st =
     (case peek st of
        None \<Rightarrow> st
      | Some p \<Rightarrow>
          update_head
            (\<lambda>r. r\<lparr>headers := hs, metadata := (metadata r)\<lparr>headersTime := Some now\<rparr>\<rparr>) st)"

definition pipeline_size :: "state \<Rightarrow> nat" where
  "pipeline_size st = length (pendingRequests st)"

text \<open>
  \<^verbatim>\<open>hrduration[0] * 1e3 + hrduration[1] / 1e6\<close>, in exact arithmetic (the rounding of the
  JavaScript number is left out).
\<close>

definition terminateRequest :: "hrtime \<Rightarrow> state \<Rightarrow> pipelined_request option \<times> state" where
  "terminateRequest now st =
     (case pendingRequests st of
        [] \<Rightarrow> (None, st)
      | p # ps \<Rightarrow>
          (let hrduration = hrtime_since now (startTime (metadata (response p)));
               d = real_of_int (fst hrduration) * 1000 + real_of_int (snd hrduration) / 1000000
           in (Some (p\<lparr>response := (response p)\<lparr>metadata :=
                         (metadata (response p))\<lparr>duration := Some d\<rparr>\<rparr>\<rparr>),
               st\<lparr>pendingRequests := ps\<rparr>)))"

text \<open>The body of the function given to \<^verbatim>\<open>forEach\<close> in \<^verbatim>\<open>close()\<close>.\<close>

definition abort_request :: "pipelined_request \<Rightarrow> state \<Rightarrow> outcome" where
  "abort_request p st =
     (let st1 = emit (Completion (callback p) (Some E_PIPELINE_ABORTED) (response p)) st
      in case body (response p) of
           None \<Rightarrow> Threw TypeError st1
         | Some b \<Rightarrow>
             (let st2 = emit (StreamDestroy b (Some E_PIPELINE_ABORTED)) st1
              in case req_body (request (response p)) of
                   None \<Rightarrow> Returned st2
                 | Some rb \<Rightarrow> Returned (emit (StreamDestroy rb None) st2)))"

fun forEach :: "(pipelined_request \<Rightarrow> state \<Rightarrow> outcome) \<Rightarrow> pipelined_request list \<Rightarrow> state \<Rightarrow> outcome" where
  "forEach f [] st = Returned st"
| "forEach f (p # ps) st =
     (case f p st of Threw e st1 \<Rightarrow> Threw e st1 | Returned st1 \<Rightarrow> forEach f ps st1)"

definition close :: "state \<Rightarrow> outcome" where
  "close st =
     (case forEach abort_request (pendingRequests st) st of
        Threw e st1 \<Rightarrow> Threw e st1
      | Returned st1 \<Rightarrow> Returned (st1\<lparr>pendingRequests := []\<rparr>))"

definition toArray :: "state \<Rightarrow> pipelined_request list" where
  "toArray st = pendingRequests st"

subsection \<open>The parser's events\<close>

text \<open>
  The handler of \<^verbatim>\<open>headers\<close>; \<open>expectedBodySize\<close> is the parser's property at that moment,
  \<open>t1\<close> and \<open>t2\<close> are the clock as \<^verbatim>\<open>setHeaders\<close> and \<^verbatim>\<open>terminateRequest\<close> read it.
\<close>

definition on_headers ::
  "hrtime \<Rightarrow> hrtime \<Rightarrow> int \<Rightarrow> string \<Rightarrow> header_map \<Rightarrow> int option \<Rightarrow> state \<Rightarrow> state" where
  "on_headers t1 t2 code msg hs expectedBodySize st =
     (let st1 = setHeaders t1 hs (setStatus code msg st)
      in if expectedBodySize = Some 0 then snd (terminateRequest t2 st1) else st1)"

text \<open>
  The handler of \<^verbatim>\<open>body_chunk\<close> defers its work with \<^verbatim>\<open>process.nextTick\<close>; this is the
  deferred function, at the moment it runs.
\<close>

definition on_body_chunk ::
  "hrtime \<Rightarrow> buffer \<Rightarrow> bool \<Rightarrow> int \<Rightarrow> bool \<times> bool \<Rightarrow> state \<Rightarrow> outcome" where
  "on_body_chunk t data isLast lastOffset res st =
     (case addBody data lastOffset res st of
        Threw e st1 \<Rightarrow> Threw e st1
      | Returned st1 \<Rightarrow> if isLast then Returned (snd (terminateRequest t st1)) else Returned st1)"

text \<open>
  What can happen to a pipeline, in the order in which it runs: a call of the public
  surface, a parser event, or a drain notification of a sink. After a throw the object
  is as the throw left it.
\<close>

datatype event =
    ScheduleSend hrtime request nat nat
  | Headers hrtime hrtime int string header_map "int option"
  | BodyChunk hrtime buffer bool int "bool \<times> bool"
  | Writable nat int "bool \<times> bool"
  | Close

fun fire :: "event \<Rightarrow> state \<Rightarrow> outcome" where
  "fire (ScheduleSend now req c acc) st = scheduleSend now req c acc st"
| "fire (Headers t1 t2 code msg hs ebs) st = Returned (on_headers t1 t2 code msg hs ebs st)"
| "fire (BodyChunk t data isLast lastOffset res) st = on_body_chunk t data isLast lastOffset res st"
| "fire (Writable a offset res) st = Returned (snd (writable a offset res st))"
| "fire Close st = close st"

fun run :: "event list \<Rightarrow> state \<Rightarrow> state" where
  "run [] st = st"
| "run (e # es) st = run es (state_of (fire e st))"

subsection \<open>Observations on traces and runs\<close>

text \<open>The calls of completion callbacks in a trace, in order: callback, error, response.\<close>

fun completions :: "effect list \<Rightarrow> (nat \<times> js_error option \<times> response) list" where
  "completions [] = []"
| "completions (Completion c err r # es) = (c, err, r) # completions es"
| "completions (e # es) = completions es"

text \<open>The completion callbacks handed to \<^verbatim>\<open>scheduleSend\<close> in a list of events, in order.\<close>

fun scheduled :: "event list \<Rightarrow> nat list" where
  "scheduled [] = []"
| "scheduled (ScheduleSend now req c acc # es) = c # scheduled es"
| "scheduled (e # es) = scheduled es"

text \<open>The call of a record's completion callback that \<^verbatim>\<open>close()\<close> makes.\<close>

definition aborted :: "pipelined_request \<Rightarrow> nat \<times> js_error option \<times> response" where
  "aborted p = (callback p, Some E_PIPELINE_ABORTED, response p)"

text \<open>
  What \<^verbatim>\<open>close()\<close> does for one record when nothing throws: the completion callback,
  the response's body stream destroyed with the same error, the request's body stream
  destroyed when there is one.
\<close>

definition abort_effects :: "pipelined_request \<Rightarrow> effect list" where
  "abort_effects p =
     Completion (callback p) (Some E_PIPELINE_ABORTED) (response p) #
     (case body (response p) of
        None \<Rightarrow> []
      | Some b \<Rightarrow>
          StreamDestroy b (Some E_PIPELINE_ABORTED) #
          (case req_body (request (response p)) of
             None \<Rightarrow> []
           | Some rb \<Rightarrow> [StreamDestroy rb None]))"

text \<open>
  The queue as the list of its records' completion callbacks. No function of the class
  writes the \<^verbatim>\<open>callback\<close> property, so it names a record through all its mutations.
\<close>

definition queue_order :: "state \<Rightarrow> nat list" where
  "queue_order st = map callback (pendingRequests st)"


text \<open>
  A body chunk that is not the last one: the clock, the bytes, what \<^verbatim>\<open>getWriteOffset()\<close>
  returns and what \<^verbatim>\<open>tryEnd\<close> returns.
\<close>

definition chunk_event :: "hrtime \<times> buffer \<times> int \<times> (bool \<times> bool) \<Rightarrow> event" where
  "chunk_event c = (case c of (t, data, lastOffset, res) \<Rightarrow> BodyChunk t data False lastOffset res)"

definition chunk_length :: "hrtime \<times> buffer \<times> int \<times> (bool \<times> bool) \<Rightarrow> nat" where
  "chunk_length c = (case c of (t, data, lastOffset, res) \<Rightarrow> length data)"

subsection \<open>Example pipelines\<close>

text \<open>
  A request with no paired sink and no body of its own, and a request proxied to the sink
  at address 3 with a body stream at address 8.
\<close>

definition plain_request :: request where
  "plain_request = \<lparr>req_response = None, req_body = None\<rparr>"

definition proxied_request :: request where
  "proxied_request = \<lparr>req_response = Some 3, req_body = Some 8\<rparr>"

text \<open>A pipeline of depth 2 that is full, and a pipeline holding one proxied request.\<close>

definition two_queued :: state where
  "two_queued =
     run [ScheduleSend (0, 0) plain_request 1 11, ScheduleSend (0, 500) proxied_request 2 12]
       (Pipeline 2)"

definition one_proxied :: state where
  "one_proxied = run [ScheduleSend (0, 0) proxied_request 2 12] (Pipeline 1000)"

section \<open>Basic facts\<close>

lemma pending_emit [simp]: "pendingRequests (emit e st) = pendingRequests st"
  by (simp add: emit_def)

lemma trace_emit [simp]: "trace (emit e st) = trace st @ [e]"
  by (simp add: emit_def)

lemma sinks_emit [simp]: "sinks (emit e st) = sinks st"
  by (simp add: emit_def)

lemma maxRequests_emit [simp]: "maxRequests (emit e st) = maxRequests st"
  by (simp add: emit_def)

lemma completions_append [simp]: "completions (xs @ ys) = completions xs @ completions ys"
  by (induction xs rule: completions.induct) simp_all

lemma peek_Cons [simp]: "pendingRequests st = p # ps \<Longrightarrow> peek st = Some p"
  by (simp add: peek_def)

lemma peek_Nil [simp]: "pendingRequests st = [] \<Longrightarrow> peek st = None"
  by (simp add: peek_def)

lemma pending_update_head:
  "pendingRequests (update_head f st) =
     (case pendingRequests st of [] \<Rightarrow> [] | p # ps \<Rightarrow> p\<lparr>response := f (response p)\<rparr> # ps)"
  by (simp add: update_head_def split: list.splits)

lemma trace_update_head [simp]: "trace (update_head f st) = trace st"
  by (simp add: update_head_def split: list.splits)

lemma sinks_update_head [simp]: "sinks (update_head f st) = sinks st"
  by (simp add: update_head_def split: list.splits)

lemma pending_setStatus:
  "pendingRequests (setStatus code msg st) =
     (case pendingRequests st of
        [] \<Rightarrow> []
      | p # ps \<Rightarrow> p\<lparr>response := (response p)\<lparr>statusCode := Some code, statusMessage := msg\<rparr>\<rparr> # ps)"
  by (simp add: setStatus_def peek_def pending_update_head split: list.splits)

lemma pending_setHeaders:
  "pendingRequests (setHeaders now hs st) =
     (case pendingRequests st of
        [] \<Rightarrow> []
      | p # ps \<Rightarrow>
          p\<lparr>response := (response p)\<lparr>headers := hs,
               metadata := (metadata (response p))\<lparr>headersTime := Some now\<rparr>\<rparr>\<rparr> # ps)"
  by (simp add: setHeaders_def peek_def pending_update_head split: list.splits)

lemma trace_setStatus [simp]: "trace (setStatus code msg st) = trace st"
  by (simp add: setStatus_def split: option.splits)

lemma trace_setHeaders [simp]: "trace (setHeaders now hs st) = trace st"
  by (simp add: setHeaders_def split: option.splits)

lemma trace_terminateRequest [simp]: "trace (snd (terminateRequest now st)) = trace st"
  by (simp add: terminateRequest_def Let_def split: list.splits)

lemma pending_terminateRequest [simp]:
  "pendingRequests (snd (terminateRequest now st)) = tl (pendingRequests st)"
  by (simp add: terminateRequest_def Let_def split: list.splits)

lemma setStatus_Nil: "pendingRequests st = [] \<Longrightarrow> setStatus code msg st = st"
  by (simp add: setStatus_def)

lemma setHeaders_Nil: "pendingRequests st = [] \<Longrightarrow> setHeaders now hs st = st"
  by (simp add: setHeaders_def)

lemma terminateRequest_Nil: "pendingRequests st = [] \<Longrightarrow> terminateRequest now st = (None, st)"
  by (simp add: terminateRequest_def)

lemma pending_relay [simp]: "pendingRequests (relay a hs data lastOffset res st) = pendingRequests st"
  by (simp add: relay_def Let_def)

lemma completions_relay [simp]:
  "completions (trace (relay a hs data lastOffset res st)) = completions (trace st)"
  by (simp add: relay_def Let_def)

lemma pending_addBody:
  "pendingRequests (state_of (addBody data lastOffset res st)) =
     (case pendingRequests st of
        [] \<Rightarrow> []
      | p # ps \<Rightarrow>
          p\<lparr>response := (response p)\<lparr>metadata :=
              (metadata (response p))\<lparr>bytes := bytes (metadata (response p)) + length data\<rparr>\<rparr>\<rparr> # ps)"
  by (simp add: addBody_def addByteCount_def peek_def pending_update_head
      split: list.splits option.splits)

lemma completions_addBody [simp]:
  "completions (trace (state_of (addBody data lastOffset res st))) = completions (trace st)"
  by (simp add: addBody_def addByteCount_def peek_def split: list.splits option.splits)

lemma pending_on_body_chunk:
  "pendingRequests (state_of (on_body_chunk t data isLast lastOffset res st)) =
     pendingRequests (state_of (addBody data lastOffset res st)) \<or>
   pendingRequests (state_of (on_body_chunk t data isLast lastOffset res st)) =
     tl (pendingRequests (state_of (addBody data lastOffset res st)))"
  by (cases "addBody data lastOffset res st") (simp_all add: on_body_chunk_def)

lemma completions_on_body_chunk [simp]:
  "completions (trace (state_of (on_body_chunk t data isLast lastOffset res st))) =
     completions (trace st)"
  using completions_addBody [of data lastOffset res st]
  by (cases "addBody data lastOffset res st") (simp_all add: on_body_chunk_def)

lemma completions_on_headers [simp]:
  "completions (trace (on_headers t1 t2 code msg hs ebs st)) = completions (trace st)"
  by (simp add: on_headers_def Let_def)

lemma completions_scheduleSend [simp]:
  "completions (trace (state_of (scheduleSend now req c acc st))) = completions (trace st)"
  by (simp add: scheduleSend_def Let_def)

lemma completions_writable [simp]:
  "completions (trace (snd (writable a offset res st))) = completions (trace st)"
  by (simp add: writable_def Let_def split: option.splits prod.splits)

lemma pending_writable [simp]:
  "pendingRequests (snd (writable a offset res st)) = pendingRequests st"
  by (simp add: writable_def Let_def split: option.splits prod.splits)

lemma two_queued_eq:
  "two_queued =
     \<lparr>pendingRequests = [new_request (0, 0) plain_request 1, new_request (0, 500) proxied_request 2],
      maxRequests = 2,
      sinks = (\<lambda>a. \<lparr>abOffset = None, writableHandler = None\<rparr>),
      trace = [Accepted 11 [new_request (0, 0) plain_request 1],
               Accepted 12 [new_request (0, 0) plain_request 1, new_request (0, 500) proxied_request 2]]\<rparr>"
  by (simp add: two_queued_def Pipeline_def scheduleSend_def emit_def)

section \<open>Admission control\<close>

text \<open>
  C4. When a positive maximum is configured and the queue has reached it,
  \<^verbatim>\<open>scheduleSend\<close> throws the overflow error and leaves the whole state as it was: no
  record is created, the size is the same, and the trace is the same, so neither the
  acknowledgement callback nor the completion callback has been called.
\<close>

theorem scheduleSend_overflow:
  assumes "0 < maxRequests st" and "maxRequests st \<le> int (pipeline_size st)"
  shows "scheduleSend now req c acc st = Threw E_PIPELINE_OVERFLOW st \<and>
         pipeline_size (state_of (scheduleSend now req c acc st)) = pipeline_size st \<and>
         trace (state_of (scheduleSend now req c acc st)) = trace st"
  using assms by (simp add: scheduleSend_def pipeline_size_def)

text \<open>The full pipeline of depth 2 rejects a third request and keeps its two records.\<close>

theorem scheduleSend_overflow_witness:
  "0 < maxRequests two_queued \<and> maxRequests two_queued \<le> int (pipeline_size two_queued) \<and>
   scheduleSend (1, 0) plain_request 3 13 two_queued = Threw E_PIPELINE_OVERFLOW two_queued \<and>
   pipeline_size (state_of (scheduleSend (1, 0) plain_request 3 13 two_queued)) = 2"
  using scheduleSend_overflow [of two_queued "(1, 0)" plain_request 3 13]
  by (simp add: two_queued_eq pipeline_size_def)

text \<open>
  C8. When \<^verbatim>\<open>scheduleSend\<close> does not overflow, it returns with the new record (byte
  counter 0, start time the clock's reading) appended at the tail of the queue and with
  exactly one more entry in the trace, the call of the acknowledgement callback; that
  call finds the queue with the new record already at its tail. The size grows by one.
\<close>

theorem scheduleSend_enqueues:
  assumes "\<not> (0 < maxRequests st \<and> maxRequests st \<le> int (pipeline_size st))"
  shows "scheduleSend now req c acc st =
           Returned (st\<lparr>pendingRequests := pendingRequests st @ [new_request now req c],
                        trace := trace st @
                          [Accepted acc (pendingRequests st @ [new_request now req c])]\<rparr>) \<and>
         bytes (metadata (response (new_request now req c))) = 0 \<and>
         startTime (metadata (response (new_request now req c))) = now \<and>
         callback (new_request now req c) = c \<and>
         pipeline_size (state_of (scheduleSend now req c acc st)) = pipeline_size st + 1"
  using assms by (auto simp add: scheduleSend_def pipeline_size_def emit_def new_request_def Let_def)

text \<open>The first request on an empty pipeline of depth 2.\<close>

theorem scheduleSend_enqueues_witness:
  "\<not> (0 < maxRequests (Pipeline 2) \<and> maxRequests (Pipeline 2) \<le> int (pipeline_size (Pipeline 2))) \<and>
   pendingRequests (state_of (scheduleSend (0, 0) plain_request 1 11 (Pipeline 2))) =
     [new_request (0, 0) plain_request 1] \<and>
   trace (state_of (scheduleSend (0, 0) plain_request 1 11 (Pipeline 2))) =
     [Accepted 11 [new_request (0, 0) plain_request 1]] \<and>
   pipeline_size (state_of (scheduleSend (0, 0) plain_request 1 11 (Pipeline 2))) = 1"
  using scheduleSend_enqueues [of "Pipeline 2" "(0, 0)" plain_request 1 11]
  by (simp add: Pipeline_def pipeline_size_def)

text \<open>
  C10, as amended. \<^verbatim>\<open>scheduleSend\<close> throws the overflow error exactly when
  \<^verbatim>\<open>maxRequests\<close> is not negative and \<^verbatim>\<open>acceptsMoreRequests()\<close> is false. So the two gates
  agree for every \<^verbatim>\<open>maxRequests\<close> from 0 upwards; with a negative \<^verbatim>\<open>maxRequests\<close>,
  \<^verbatim>\<open>scheduleSend\<close> never overflows, whatever \<^verbatim>\<open>acceptsMoreRequests()\<close> answers.
\<close>

theorem overflow_iff_not_accepts:
  "thrown (scheduleSend now req c acc st) = Some E_PIPELINE_OVERFLOW \<longleftrightarrow>
     0 \<le> maxRequests st \<and> \<not> acceptsMoreRequests st"
  by (auto simp add: scheduleSend_def acceptsMoreRequests_def Let_def)

text \<open>On the full pipeline of depth 2 both gates close.\<close>

theorem overflow_iff_not_accepts_witness:
  "thrown (scheduleSend (1, 0) plain_request 3 13 two_queued) = Some E_PIPELINE_OVERFLOW \<and>
   0 \<le> maxRequests two_queued \<and> \<not> acceptsMoreRequests two_queued"
  using overflow_iff_not_accepts [of "(1, 0)" plain_request 3 13 two_queued]
  by (simp add: two_queued_eq acceptsMoreRequests_def)

text \<open>
  With \<^verbatim>\<open>maxRequests = -1\<close> and an empty queue \<^verbatim>\<open>acceptsMoreRequests()\<close> is false
  (0 is not below -1), and \<^verbatim>\<open>scheduleSend\<close> accepts the request: the gates disagree.
\<close>

theorem gates_disagree_counterexample:
  "\<not> (thrown (scheduleSend (0, 0) plain_request 1 11 (Pipeline (- 1))) = Some E_PIPELINE_OVERFLOW
        \<longleftrightarrow> \<not> acceptsMoreRequests (Pipeline (- 1)))"
  by (simp add: scheduleSend_def acceptsMoreRequests_def Pipeline_def Let_def)

section \<open>Parser events\<close>

text \<open>
  C6. A \<^verbatim>\<open>headers\<close> event on a non-empty queue, with the parser's \<^verbatim>\<open>expectedBodySize\<close>
  equal to 0, removes the first record and nothing else: the size goes down by one, with
  no \<^verbatim>\<open>body_chunk\<close> event. The record that \<^verbatim>\<open>terminateRequest\<close> takes out is the first
  one with the status code, the status message and the headers of the event, and its
  duration is set.
\<close>

theorem headers_zero_body_terminates:
  assumes "pendingRequests st = p # ps"
  shows "on_headers t1 t2 code msg hs (Some 0) st = st\<lparr>pendingRequests := ps\<rparr> \<and>
         pipeline_size (on_headers t1 t2 code msg hs (Some 0) st) + 1 = pipeline_size st \<and>
         (\<exists>q. terminateRequest t2 (setHeaders t1 hs (setStatus code msg st)) =
                (Some q, on_headers t1 t2 code msg hs (Some 0) st) \<and>
              callback q = callback p \<and>
              statusCode (response q) = Some code \<and>
              statusMessage (response q) = msg \<and>
              headers (response q) = hs \<and>
              duration (metadata (response q)) \<noteq> None)"
  using assms
  by (simp add: on_headers_def setStatus_def setHeaders_def update_head_def
      terminateRequest_def pipeline_size_def Let_def)

text \<open>A 204 answer to the first of two queued requests.\<close>

theorem headers_zero_body_terminates_witness:
  "pendingRequests two_queued =
     [new_request (0, 0) plain_request 1, new_request (0, 500) proxied_request 2] \<and>
   pendingRequests (on_headers (1, 0) (1, 7) 204 ''No Content'' [] (Some 0) two_queued) =
     [new_request (0, 500) proxied_request 2] \<and>
   pipeline_size (on_headers (1, 0) (1, 7) 204 ''No Content'' [] (Some 0) two_queued) = 1"
proof -
  have q: "pendingRequests two_queued =
      [new_request (0, 0) plain_request 1, new_request (0, 500) proxied_request 2]"
    by (simp add: two_queued_eq)
  have "on_headers (1, 0) (1, 7) 204 ''No Content'' [] (Some 0) two_queued =
      two_queued\<lparr>pendingRequests := [new_request (0, 500) proxied_request 2]\<rparr>"
    using headers_zero_body_terminates [OF q] by (rule conjunct1)
  then show ?thesis using q by (simp add: pipeline_size_def)
qed

text \<open>
  C5. On an empty queue a \<^verbatim>\<open>headers\<close> event changes nothing, but the deferred handler of
  a \<^verbatim>\<open>body_chunk\<close> event throws: \<^verbatim>\<open>addBody\<close> reads \<^verbatim>\<open>this.peek().response\<close> before it
  tests anything, and \<^verbatim>\<open>peek()\<close> is \<^verbatim>\<open>undefined\<close>.
\<close>

theorem body_chunk_on_empty_queue_throws:
  "fire (BodyChunk t data isLast lastOffset res) (Pipeline m) = Threw TypeError (Pipeline m) \<and>
   fire (Headers t1 t2 code msg hs ebs) (Pipeline m) = Returned (Pipeline m)"
  by (simp add: on_body_chunk_def addBody_def peek_def Pipeline_def on_headers_def
      setStatus_def setHeaders_def terminateRequest_def Let_def)

section \<open>Completion callbacks, termination and abort\<close>

text \<open>
  When every queued response has a body stream, \<^verbatim>\<open>close()\<close> aborts the records one by
  one, in the order of the queue, and then clears the queue.
\<close>

lemma abort_request_effects:
  "body (response p) \<noteq> None \<Longrightarrow>
     abort_request p st = Returned (st\<lparr>trace := trace st @ abort_effects p\<rparr>)"
  by (auto simp add: abort_request_def abort_effects_def emit_def Let_def split: option.splits)

lemma forEach_abort_effects:
  "\<forall>p \<in> set ps. body (response p) \<noteq> None \<Longrightarrow>
     forEach abort_request ps st =
       Returned (st\<lparr>trace := trace st @ concat (map abort_effects ps)\<rparr>)"
proof (induction ps arbitrary: st)
  case Nil
  then show ?case by simp
next
  case (Cons p ps)
  then have b: "body (response p) \<noteq> None"
    and rest: "\<forall>p \<in> set ps. body (response p) \<noteq> None"
    by simp_all
  show ?case
    by (simp add: abort_request_effects [OF b] Cons.IH [OF rest])
qed

lemma close_aborts_all:
  assumes "\<forall>p \<in> set (pendingRequests st). body (response p) \<noteq> None"
  shows "close st =
    Returned (st\<lparr>pendingRequests := [],
                 trace := trace st @ concat (map abort_effects (pendingRequests st))\<rparr>)"
  by (simp add: close_def forEach_abort_effects [OF assms])

text \<open>
  Whether it returns or throws, \<^verbatim>\<open>close()\<close> has called the completion callbacks of the
  first records of the queue, one call each, in the order of the queue, and at least
  that of the first record.
\<close>

lemma completions_abort_any:
  "completions (trace (state_of (abort_request p st))) = completions (trace st) @ [aborted p]"
  by (simp add: abort_request_def aborted_def Let_def split: option.splits)

lemma forEach_abort_prefix:
  "\<exists>k. k \<le> length ps \<and> min 1 (length ps) \<le> k \<and>
     completions (trace (state_of (forEach abort_request ps st))) =
       completions (trace st) @ map aborted (take k ps)"
proof (induction ps arbitrary: st)
  case Nil
  then show ?case by simp
next
  case (Cons p ps)
  show ?case
  proof (cases "abort_request p st")
    case (Threw err st1)
    then have "completions (trace (state_of (forEach abort_request (p # ps) st))) =
        completions (trace st) @ map aborted (take 1 (p # ps))"
      using completions_abort_any [of p st] by simp
    moreover have "(1::nat) \<le> length (p # ps)" "min 1 (length (p # ps)) \<le> (1::nat)" by simp_all
    ultimately show ?thesis by blast
  next
    case (Returned st1)
    obtain k where k: "k \<le> length ps"
      and c: "completions (trace (state_of (forEach abort_request ps st1))) =
        completions (trace st1) @ map aborted (take k ps)"
      using Cons.IH [of st1] by blast
    have "completions (trace st1) = completions (trace st) @ [aborted p]"
      using completions_abort_any [of p st] Returned by simp
    with c Returned have "completions (trace (state_of (forEach abort_request (p # ps) st))) =
        completions (trace st) @ map aborted (take (Suc k) (p # ps))"
      by simp
    moreover have "Suc k \<le> length (p # ps)" "min 1 (length (p # ps)) \<le> Suc k"
      using k by simp_all
    ultimately show ?thesis by blast
  qed
qed

lemma close_abort_prefix:
  "\<exists>k. k \<le> length (pendingRequests st) \<and> min 1 (length (pendingRequests st)) \<le> k \<and>
     completions (trace (state_of (close st))) =
       completions (trace st) @ map aborted (take k (pendingRequests st))"
proof -
  have "trace (state_of (close st)) =
      trace (state_of (forEach abort_request (pendingRequests st) st))"
    by (cases "forEach abort_request (pendingRequests st) st") (simp_all add: close_def)
  then show ?thesis using forEach_abort_prefix [of "pendingRequests st" st] by simp
qed

lemma run_without_close:
  "Close \<notin> set es \<Longrightarrow> completions (trace (run es st)) = completions (trace st)"
proof (induction es arbitrary: st)
  case Nil
  then show ?case by simp
next
  case (Cons e es)
  then have "e \<noteq> Close" "Close \<notin> set es" by auto
  moreover from \<open>e \<noteq> Close\<close> have
    "completions (trace (state_of (fire e st))) = completions (trace st)"
    by (cases e) simp_all
  ultimately show ?case using Cons.IH [of "state_of (fire e st)"] by simp
qed

text \<open>
  C1, as amended. \<^verbatim>\<open>terminateRequest\<close> calls nothing: the record it removes gets no
  completion callback, and is no longer in the queue for a later \<^verbatim>\<open>close()\<close>. No event
  but \<^verbatim>\<open>close()\<close> calls a completion callback, so no run of events without \<^verbatim>\<open>close()\<close>
  adds such a call. One \<^verbatim>\<open>close()\<close> calls the completion callbacks of records that are
  in the queue at that moment only: those of its first \<open>k\<close> records, once each, in the
  order of the queue, each with the aborted error and the record's response, and the
  first record's whenever the queue is not empty. How far one \<^verbatim>\<open>close()\<close> gets and
  whether it clears the queue is left open here.
\<close>

theorem completion_only_by_close:
  "trace (snd (terminateRequest now st)) = trace st \<and>
   pendingRequests (snd (terminateRequest now st)) = tl (pendingRequests st) \<and>
   (e \<noteq> Close \<longrightarrow> completions (trace (state_of (fire e st))) = completions (trace st)) \<and>
   (Close \<notin> set es \<longrightarrow> completions (trace (run es st)) = completions (trace st)) \<and>
   (\<exists>k. k \<le> length (pendingRequests st) \<and> min 1 (length (pendingRequests st)) \<le> k \<and>
      completions (trace (state_of (close st))) =
        completions (trace st) @ map aborted (take k (pendingRequests st)))"
proof -
  have "e \<noteq> Close \<longrightarrow> completions (trace (state_of (fire e st))) = completions (trace st)"
    by (cases e) simp_all
  then show ?thesis
    using close_abort_prefix [of st] run_without_close [of es st] by simp
qed

text \<open>
  The full pipeline of depth 2: a 204 and a last body chunk terminate both records with no
  call of a completion callback; \<^verbatim>\<open>close()\<close> calls that of the first record.
\<close>

theorem completion_only_by_close_witness:
  "Headers (1, 0) (1, 7) 204 ''No Content'' [] (Some 0) \<noteq> Close \<and>
   Close \<notin> set [Headers (1, 0) (1, 7) 204 ''No Content'' [] (Some 0),
                 BodyChunk (2, 0) [1, 2] True 0 (True, True)] \<and>
   queue_order two_queued = [1, 2] \<and>
   queue_order (run [Headers (1, 0) (1, 7) 204 ''No Content'' [] (Some 0),
                     BodyChunk (2, 0) [1, 2] True 0 (True, True)] two_queued) = [] \<and>
   completions (trace (run [Headers (1, 0) (1, 7) 204 ''No Content'' [] (Some 0),
                            BodyChunk (2, 0) [1, 2] True 0 (True, True)] two_queued)) = [] \<and>
   completions (trace (state_of (close two_queued))) =
     [aborted (new_request (0, 0) plain_request 1)]"
  using completion_only_by_close
    [of "(0, 0)" two_queued "Headers (1, 0) (1, 7) 204 ''No Content'' [] (Some 0)"
      "[Headers (1, 0) (1, 7) 204 ''No Content'' [] (Some 0),
        BodyChunk (2, 0) [1, 2] True 0 (True, True)]"]
  by (simp add: two_queued_eq queue_order_def on_headers_def setStatus_def setHeaders_def
      update_head_def peek_def terminateRequest_def on_body_chunk_def addBody_def
      addByteCount_def relay_def close_def abort_request_def emit_def new_request_def
      plain_request_def proxied_request_def aborted_def Let_def)

text \<open>
  A record is enqueued with completion callback 7, a 204 answer terminates it, and the
  pipeline is closed: callback 7 has never been called. On the full pipeline of depth 2,
  \<^verbatim>\<open>close()\<close> calls callback 1 only and keeps both records, so callback 2 is not called,
  and a second \<^verbatim>\<open>close()\<close> calls callback 1 again.
\<close>

theorem completion_callback_counterexample:
  "queue_order (run [ScheduleSend (0, 0) plain_request 7 70] (Pipeline 1000)) = [7] \<and>
   queue_order (run [ScheduleSend (0, 0) plain_request 7 70,
                     Headers (1, 0) (1, 5) 204 ''No Content'' [] (Some 0)] (Pipeline 1000)) = [] \<and>
   completions (trace (run [ScheduleSend (0, 0) plain_request 7 70,
                            Headers (1, 0) (1, 5) 204 ''No Content'' [] (Some 0),
                            Close] (Pipeline 1000))) = [] \<and>
   queue_order two_queued = [1, 2] \<and>
   map fst (completions (trace (run [Close] two_queued))) = [1] \<and>
   queue_order (run [Close] two_queued) = [1, 2] \<and>
   map fst (completions (trace (run [Close, Close] two_queued))) = [1, 1]"
  by (simp add: queue_order_def Pipeline_def scheduleSend_def emit_def on_headers_def
      setStatus_def setHeaders_def update_head_def peek_def terminateRequest_def close_def
      abort_request_def two_queued_def new_request_def Let_def)

text \<open>
  C2. On the two records that \<^verbatim>\<open>scheduleSend\<close> created, \<^verbatim>\<open>close()\<close> calls the first
  completion callback and then throws at \<^verbatim>\<open>response.body.destroy(err)\<close>: the response has
  no \<^verbatim>\<open>body\<close>. The second callback is not called and the queue keeps both records.
\<close>

theorem close_throws_on_scheduled_records:
  "close two_queued =
     Threw TypeError
       (emit (Completion 1 (Some E_PIPELINE_ABORTED) (response (new_request (0, 0) plain_request 1)))
          two_queued) \<and>
   pipeline_size (state_of (close two_queued)) = 2 \<and>
   map fst (completions (trace (state_of (close two_queued)))) = [1]"
  by (simp add: two_queued_eq close_def abort_request_def new_request_def emit_def
      pipeline_size_def Let_def)

section \<open>Head-of-line ordering\<close>

lemma pending_abort_request [simp]:
  "pendingRequests (state_of (abort_request p st)) = pendingRequests st"
  by (simp add: abort_request_def Let_def split: option.splits)

lemma pending_forEach_abort [simp]:
  "pendingRequests (state_of (forEach abort_request ps st)) = pendingRequests st"
proof (induction ps arbitrary: st)
  case Nil
  then show ?case by simp
next
  case (Cons p ps)
  show ?case
  proof (cases "abort_request p st")
    case (Returned st1)
    with pending_abort_request [of p st] Cons.IH [of st1] show ?thesis by simp
  next
    case (Threw e st1)
    with pending_abort_request [of p st] show ?thesis by simp
  qed
qed

lemma pending_close:
  "pendingRequests (state_of (close st)) = pendingRequests st \<or>
   pendingRequests (state_of (close st)) = []"
  using pending_forEach_abort [of "pendingRequests st" st]
  by (cases "forEach abort_request (pendingRequests st) st") (simp_all add: close_def)

lemma order_setStatus [simp]: "queue_order (setStatus code msg st) = queue_order st"
  by (simp add: queue_order_def pending_setStatus split: list.splits)

lemma order_setHeaders [simp]: "queue_order (setHeaders now hs st) = queue_order st"
  by (simp add: queue_order_def pending_setHeaders split: list.splits)

lemma order_addBody [simp]:
  "queue_order (state_of (addBody data lastOffset res st)) = queue_order st"
  by (simp add: queue_order_def pending_addBody split: list.splits)

lemma order_addByteCount [simp]:
  "queue_order (state_of (addByteCount n st)) = queue_order st"
  by (simp add: queue_order_def addByteCount_def peek_def pending_update_head split: list.splits)

lemma order_terminateRequest [simp]:
  "queue_order (snd (terminateRequest now st)) = tl (queue_order st)"
  by (simp add: queue_order_def map_tl)

lemma tail_setStatus: "tl (pendingRequests (setStatus code msg st)) = tl (pendingRequests st)"
  by (simp add: pending_setStatus split: list.splits)

lemma tail_setHeaders: "tl (pendingRequests (setHeaders now hs st)) = tl (pendingRequests st)"
  by (simp add: pending_setHeaders split: list.splits)

lemma tail_addBody:
  "tl (pendingRequests (state_of (addBody data lastOffset res st))) = tl (pendingRequests st)"
  by (simp add: pending_addBody split: list.splits)

lemma tail_addByteCount:
  "tl (pendingRequests (state_of (addByteCount n st))) = tl (pendingRequests st)"
  by (simp add: addByteCount_def peek_def pending_update_head split: list.splits)

lemma terminateRequest_head:
  "map_option callback (fst (terminateRequest now st)) = map_option callback (peek st)"
  by (simp add: terminateRequest_def peek_def Let_def split: list.splits)

lemma scheduled_Cons: "scheduled (e # es) = scheduled [e] @ scheduled es"
  by (cases e) simp_all

lemma fifo_step:
  "\<exists>k added. k \<le> length (queue_order st) + length added \<and> subseq added (scheduled [e]) \<and>
     queue_order (state_of (fire e st)) = drop k (queue_order st @ added)"
proof (cases e)
  case (ScheduleSend now req c acc)
  show ?thesis
  proof (cases "thrown (scheduleSend now req c acc st)")
    case None
    then have "queue_order (state_of (fire e st)) = drop 0 (queue_order st @ [c])"
      by (simp add: ScheduleSend scheduleSend_def queue_order_def new_request_def Let_def
          split: if_splits)
    moreover have "subseq [c] (scheduled [e])" by (simp add: ScheduleSend)
    ultimately show ?thesis by (metis le0)
  next
    case (Some err)
    then have "queue_order (state_of (fire e st)) = drop 0 (queue_order st @ [])"
      by (simp add: ScheduleSend scheduleSend_def queue_order_def Let_def split: if_splits)
    then show ?thesis by (metis le0 list_emb_Nil)
  qed
next
  case (Headers t1 t2 code msg hs ebs)
  have "queue_order (state_of (fire e st)) = queue_order st \<or>
        queue_order (state_of (fire e st)) = tl (queue_order st)"
    by (simp add: Headers on_headers_def Let_def)
  then consider "queue_order (state_of (fire e st)) = drop 0 (queue_order st @ [])"
    | "queue_order st \<noteq> []" "queue_order (state_of (fire e st)) = drop 1 (queue_order st @ [])"
    by (cases "queue_order st") (auto simp add: drop_Suc)
  then show ?thesis
  proof cases
    case 1
    then show ?thesis by (metis le0 list_emb_Nil)
  next
    case 2
    then have "1 \<le> length (queue_order st) + length ([] :: nat list)"
      by (cases "queue_order st") simp_all
    with 2 show ?thesis by (metis list_emb_Nil)
  qed
next
  case (BodyChunk t data isLast lastOffset res)
  have "queue_order (state_of (fire e st)) = queue_order st \<or>
        queue_order (state_of (fire e st)) = tl (queue_order st)"
    using pending_on_body_chunk [of t data isLast lastOffset res st]
      order_addBody [of data lastOffset res st]
    by (auto simp add: BodyChunk queue_order_def map_tl)
  then consider "queue_order (state_of (fire e st)) = drop 0 (queue_order st @ [])"
    | "queue_order st \<noteq> []" "queue_order (state_of (fire e st)) = drop 1 (queue_order st @ [])"
    by (cases "queue_order st") (auto simp add: drop_Suc)
  then show ?thesis
  proof cases
    case 1
    then show ?thesis by (metis le0 list_emb_Nil)
  next
    case 2
    then have "1 \<le> length (queue_order st) + length ([] :: nat list)"
      by (cases "queue_order st") simp_all
    with 2 show ?thesis by (metis list_emb_Nil)
  qed
next
  case (Writable a offset res)
  have "queue_order (state_of (fire e st)) = drop 0 (queue_order st @ [])"
    by (simp add: Writable queue_order_def)
  then show ?thesis by (metis le0 list_emb_Nil)
next
  case Close
  from pending_close [of st]
  consider "queue_order (state_of (fire e st)) = drop 0 (queue_order st @ [])"
    | "queue_order (state_of (fire e st)) = drop (length (queue_order st)) (queue_order st @ [])"
    by (auto simp add: Close queue_order_def)
  then show ?thesis
  proof cases
    case 1
    then show ?thesis by (metis le0 list_emb_Nil)
  next
    case 2
    have "length (queue_order st) \<le> length (queue_order st) + length ([] :: nat list)" by simp
    with 2 show ?thesis by (metis list_emb_Nil)
  qed
qed

lemma drop_drop_append:
  assumes "k \<le> length xs"
  shows "drop k' (drop k xs @ ys) = drop (k' + k) (xs @ ys)"
proof -
  have "drop k xs @ ys = drop k (xs @ ys)" using assms by simp
  then have "drop k' (drop k xs @ ys) = drop k' (drop k (xs @ ys))" by (rule arg_cong)
  also have "\<dots> = drop (k' + k) (xs @ ys)" by (rule drop_drop)
  finally show ?thesis .
qed

lemma fifo_run:
  "\<exists>k added. k \<le> length (queue_order st) + length added \<and> subseq added (scheduled es) \<and>
     queue_order (run es st) = drop k (queue_order st @ added)"
proof (induction es arbitrary: st)
  case Nil
  have "queue_order (run [] st) = drop 0 (queue_order st @ [])" by simp
  then show ?case by (metis le0 list_emb_Nil scheduled.simps(1))
next
  case (Cons e es)
  define st1 where "st1 = state_of (fire e st)"
  obtain k a where k: "k \<le> length (queue_order st) + length a"
    and a: "subseq a (scheduled [e])"
    and q1: "queue_order st1 = drop k (queue_order st @ a)"
    using fifo_step [of st e] unfolding st1_def by blast
  obtain k' a' where k': "k' \<le> length (queue_order st1) + length a'"
    and a': "subseq a' (scheduled es)"
    and q2: "queue_order (run es st1) = drop k' (queue_order st1 @ a')"
    using Cons.IH [of st1] by blast
  have "queue_order (run (e # es) st) = drop k' (drop k (queue_order st @ a) @ a')"
    using q1 q2 by (simp add: st1_def)
  also have "\<dots> = drop (k' + k) ((queue_order st @ a) @ a')"
    using k by (intro drop_drop_append) simp
  also have "\<dots> = drop (k' + k) (queue_order st @ (a @ a'))"
    by simp
  finally have eq: "queue_order (run (e # es) st) = drop (k' + k) (queue_order st @ (a @ a'))" .
  have bound: "k' + k \<le> length (queue_order st) + length (a @ a')"
    using k k' q1 by simp
  have "subseq (a @ a') (scheduled [e] @ scheduled es)"
    using a a' by (rule list_emb_append_mono)
  then have sub: "subseq (a @ a') (scheduled (e # es))"
    using scheduled_Cons [of e es] by simp
  from bound sub eq show ?case by blast
qed

lemma sinks_terminateRequest [simp]: "sinks (snd (terminateRequest now st)) = sinks st"
  by (simp add: terminateRequest_def Let_def split: list.splits)

lemma sinks_setStatus [simp]: "sinks (setStatus code msg st) = sinks st"
  by (simp add: setStatus_def split: option.splits)

lemma sinks_setHeaders [simp]: "sinks (setHeaders now hs st) = sinks st"
  by (simp add: setHeaders_def split: option.splits)

lemma addByteCount_frame:
  "trace (state_of (addByteCount n st)) = trace st \<and>
   sinks (state_of (addByteCount n st)) = sinks st"
  by (simp add: addByteCount_def split: option.splits)

lemma head_mutations:
  assumes "pendingRequests st = p # ps"
  shows "pendingRequests (setStatus code msg st) =
      p\<lparr>response := (response p)\<lparr>statusCode := Some code, statusMessage := msg\<rparr>\<rparr> # ps"
    and "pendingRequests (setHeaders now hs st) =
      p\<lparr>response := (response p)\<lparr>headers := hs,
          metadata := (metadata (response p))\<lparr>headersTime := Some now\<rparr>\<rparr>\<rparr> # ps"
    and "pendingRequests (state_of (addByteCount n st)) =
      p\<lparr>response := (response p)\<lparr>metadata :=
          (metadata (response p))\<lparr>bytes := bytes (metadata (response p)) + n\<rparr>\<rparr>\<rparr> # ps"
    and "pendingRequests (state_of (addBody data lastOffset res st)) =
      p\<lparr>response := (response p)\<lparr>metadata :=
          (metadata (response p))\<lparr>bytes := bytes (metadata (response p)) + length data\<rparr>\<rparr>\<rparr> # ps"
  using assms
  by (simp_all add: pending_setStatus pending_setHeaders pending_addBody addByteCount_def
      pending_update_head)

lemma addBody_effects:
  assumes "pendingRequests st = p # ps"
  shows "trace (state_of (addBody data lastOffset res st)) =
      trace st @
        (case req_response (request (response p)) of
           Some a \<Rightarrow> [TryEnd a data (map_of (headers (response p)) ''content-length'')]
         | None \<Rightarrow> (case body (response p) of None \<Rightarrow> [] | Some b \<Rightarrow> [StreamPush b data]))"
    and "sinks (state_of (addBody data lastOffset res st)) =
      (case req_response (request (response p)) of
         Some a \<Rightarrow>
           if \<not> snd res \<and> \<not> fst res
           then (sinks st)(a := \<lparr>abOffset = Some lastOffset,
                                  writableHandler = Some (data, headers (response p))\<rparr>)
           else sinks st
       | None \<Rightarrow> sinks st)"
  using assms
  by (simp_all add: addBody_def addByteCount_def relay_def Let_def split: option.splits)

lemma empty_queue_untouched:
  assumes "pendingRequests st = []"
  shows "setStatus code msg st = st" and "setHeaders now hs st = st"
    and "state_of (addByteCount n st) = st" and "state_of (addBody data lastOffset res st) = st"
    and "snd (terminateRequest now st) = st"
  using assms
  by (simp_all add: setStatus_def setHeaders_def addByteCount_def addBody_def
      terminateRequest_def)

lemma on_headers_head:
  assumes "pendingRequests st = p # ps"
  shows "on_headers t1 t2 code msg hs ebs st =
      st\<lparr>pendingRequests :=
           (if ebs = Some 0 then ps
            else p\<lparr>response := (response p)\<lparr>statusCode := Some code, statusMessage := msg,
                    headers := hs,
                    metadata := (metadata (response p))\<lparr>headersTime := Some t1\<rparr>\<rparr>\<rparr> # ps)\<rparr>"
  using assms
  by (simp add: on_headers_def setStatus_def setHeaders_def update_head_def
      terminateRequest_def Let_def)

lemma on_body_chunk_head:
  "trace (state_of (on_body_chunk t data isLast lastOffset res st)) =
     trace (state_of (addBody data lastOffset res st)) \<and>
   sinks (state_of (on_body_chunk t data isLast lastOffset res st)) =
     sinks (state_of (addBody data lastOffset res st)) \<and>
   pendingRequests (state_of (on_body_chunk t data isLast lastOffset res st)) =
     (if isLast \<and> thrown (addBody data lastOffset res st) = None
      then tl (pendingRequests (state_of (addBody data lastOffset res st)))
      else pendingRequests (state_of (addBody data lastOffset res st)))"
  by (cases "addBody data lastOffset res st") (simp_all add: on_body_chunk_def)

text \<open>
  C3. \<^verbatim>\<open>scheduleSend\<close>, when it returns, has appended the new record at the tail.
  \<^verbatim>\<open>terminateRequest\<close> removes the first record and returns it. \<^verbatim>\<open>setStatus\<close>,
  \<^verbatim>\<open>setHeaders\<close>, \<^verbatim>\<open>addByteCount\<close> and \<^verbatim>\<open>addBody\<close> leave every record behind the first
  as it was and keep the order of the queue, whether they return or throw. Hence, after
  any events, the queue is what remains of the earlier queue followed by newly scheduled
  records, in the order of scheduling, once some number of records have left at the
  front: records leave in the order in which they came.

  What the mutations write is the first record and nothing else. \<^verbatim>\<open>setStatus\<close>,
  \<^verbatim>\<open>setHeaders\<close>, \<^verbatim>\<open>addByteCount\<close> and \<^verbatim>\<open>terminateRequest\<close> call no collaborator and touch no
  sink. On an empty queue none of the five changes anything. On a queue \<open>p # ps\<close> each
  writes its values into \<open>p\<close>; \<^verbatim>\<open>addBody\<close> hands the bytes to the sink of \<open>p\<close>'s request
  (one \<^verbatim>\<open>tryEnd\<close>, and the saved offset and handler on that sink alone) or, with no sink,
  to the body stream of \<open>p\<close>'s response, and to nothing else. The handler of \<^verbatim>\<open>headers\<close>
  changes the queue only, into \<open>ps\<close> or into the updated \<open>p\<close> before \<open>ps\<close>; the deferred
  handler of \<^verbatim>\<open>body_chunk\<close> does what \<^verbatim>\<open>addBody\<close> does and then may remove the first record.
\<close>

theorem fifo_head_of_line:
  "(thrown (scheduleSend now req c acc st) = None \<longrightarrow>
      pendingRequests (state_of (scheduleSend now req c acc st)) =
        pendingRequests st @ [new_request now req c]) \<and>
   pendingRequests (snd (terminateRequest now st)) = tl (pendingRequests st) \<and>
   map_option callback (fst (terminateRequest now st)) = map_option callback (peek st) \<and>
   tl (pendingRequests (setStatus code msg st)) = tl (pendingRequests st) \<and>
   queue_order (setStatus code msg st) = queue_order st \<and>
   tl (pendingRequests (setHeaders now hs st)) = tl (pendingRequests st) \<and>
   queue_order (setHeaders now hs st) = queue_order st \<and>
   tl (pendingRequests (state_of (addByteCount n st))) = tl (pendingRequests st) \<and>
   queue_order (state_of (addByteCount n st)) = queue_order st \<and>
   tl (pendingRequests (state_of (addBody data lastOffset res st))) = tl (pendingRequests st) \<and>
   queue_order (state_of (addBody data lastOffset res st)) = queue_order st \<and>
   (\<exists>k added. k \<le> length (queue_order st) + length added \<and> subseq added (scheduled es) \<and>
      queue_order (run es st) = drop k (queue_order st @ added)) \<and>
   trace (setStatus code msg st) = trace st \<and> sinks (setStatus code msg st) = sinks st \<and>
   trace (setHeaders now hs st) = trace st \<and> sinks (setHeaders now hs st) = sinks st \<and>
   trace (state_of (addByteCount n st)) = trace st \<and>
   sinks (state_of (addByteCount n st)) = sinks st \<and>
   trace (snd (terminateRequest now st)) = trace st \<and>
   sinks (snd (terminateRequest now st)) = sinks st \<and>
   (pendingRequests st = [] \<longrightarrow>
      setStatus code msg st = st \<and> setHeaders now hs st = st \<and>
      state_of (addByteCount n st) = st \<and> state_of (addBody data lastOffset res st) = st \<and>
      snd (terminateRequest now st) = st) \<and>
   (pendingRequests st = p # ps \<longrightarrow>
      pendingRequests (setStatus code msg st) =
        p\<lparr>response := (response p)\<lparr>statusCode := Some code, statusMessage := msg\<rparr>\<rparr> # ps \<and>
      pendingRequests (setHeaders now hs st) =
        p\<lparr>response := (response p)\<lparr>headers := hs,
            metadata := (metadata (response p))\<lparr>headersTime := Some now\<rparr>\<rparr>\<rparr> # ps \<and>
      pendingRequests (state_of (addByteCount n st)) =
        p\<lparr>response := (response p)\<lparr>metadata :=
            (metadata (response p))\<lparr>bytes := bytes (metadata (response p)) + n\<rparr>\<rparr>\<rparr> # ps \<and>
      pendingRequests (state_of (addBody data lastOffset res st)) =
        p\<lparr>response := (response p)\<lparr>metadata :=
            (metadata (response p))\<lparr>bytes := bytes (metadata (response p)) + length data\<rparr>\<rparr>\<rparr> # ps \<and>
      trace (state_of (addBody data lastOffset res st)) =
        trace st @
          (case req_response (request (response p)) of
             Some a \<Rightarrow> [TryEnd a data (map_of (headers (response p)) ''content-length'')]
           | None \<Rightarrow> (case body (response p) of None \<Rightarrow> [] | Some b \<Rightarrow> [StreamPush b data])) \<and>
      sinks (state_of (addBody data lastOffset res st)) =
        (case req_response (request (response p)) of
           Some a \<Rightarrow>
             if \<not> snd res \<and> \<not> fst res
             then (sinks st)(a := \<lparr>abOffset = Some lastOffset,
                                    writableHandler = Some (data, headers (response p))\<rparr>)
             else sinks st
         | None \<Rightarrow> sinks st) \<and>
      on_headers t1 t2 code msg hs ebs st =
        st\<lparr>pendingRequests :=
             (if ebs = Some 0 then ps
              else p\<lparr>response := (response p)\<lparr>statusCode := Some code, statusMessage := msg,
                      headers := hs,
                      metadata := (metadata (response p))\<lparr>headersTime := Some t1\<rparr>\<rparr>\<rparr> # ps)\<rparr>) \<and>
   trace (state_of (on_body_chunk t data isLast lastOffset res st)) =
     trace (state_of (addBody data lastOffset res st)) \<and>
   sinks (state_of (on_body_chunk t data isLast lastOffset res st)) =
     sinks (state_of (addBody data lastOffset res st)) \<and>
   pendingRequests (state_of (on_body_chunk t data isLast lastOffset res st)) =
     (if isLast \<and> thrown (addBody data lastOffset res st) = None
      then tl (pendingRequests (state_of (addBody data lastOffset res st)))
      else pendingRequests (state_of (addBody data lastOffset res st)))"
proof -
  have a: "thrown (scheduleSend now req c acc st) = None \<longrightarrow>
      pendingRequests (state_of (scheduleSend now req c acc st)) =
        pendingRequests st @ [new_request now req c]"
    by (simp add: scheduleSend_def Let_def)
  have b: "\<exists>k added. k \<le> length (queue_order st) + length added \<and>
      subseq added (scheduled es) \<and>
      queue_order (run es st) = drop k (queue_order st @ added)"
    by (rule fifo_run)
  have c: "pendingRequests st = [] \<longrightarrow>
      setStatus code msg st = st \<and> setHeaders now hs st = st \<and>
      state_of (addByteCount n st) = st \<and> state_of (addBody data lastOffset res st) = st \<and>
      snd (terminateRequest now st) = st"
    using empty_queue_untouched [of st] by blast
  have d: "pendingRequests st = p # ps \<longrightarrow>
      pendingRequests (setStatus code msg st) =
        p\<lparr>response := (response p)\<lparr>statusCode := Some code, statusMessage := msg\<rparr>\<rparr> # ps \<and>
      pendingRequests (setHeaders now hs st) =
        p\<lparr>response := (response p)\<lparr>headers := hs,
            metadata := (metadata (response p))\<lparr>headersTime := Some now\<rparr>\<rparr>\<rparr> # ps \<and>
      pendingRequests (state_of (addByteCount n st)) =
        p\<lparr>response := (response p)\<lparr>metadata :=
            (metadata (response p))\<lparr>bytes := bytes (metadata (response p)) + n\<rparr>\<rparr>\<rparr> # ps \<and>
      pendingRequests (state_of (addBody data lastOffset res st)) =
        p\<lparr>response := (response p)\<lparr>metadata :=
            (metadata (response p))\<lparr>bytes := bytes (metadata (response p)) + length data\<rparr>\<rparr>\<rparr> # ps \<and>
      trace (state_of (addBody data lastOffset res st)) =
        trace st @
          (case req_response (request (response p)) of
             Some a \<Rightarrow> [TryEnd a data (map_of (headers (response p)) ''content-length'')]
           | None \<Rightarrow> (case body (response p) of None \<Rightarrow> [] | Some b \<Rightarrow> [StreamPush b data])) \<and>
      sinks (state_of (addBody data lastOffset res st)) =
        (case req_response (request (response p)) of
           Some a \<Rightarrow>
             if \<not> snd res \<and> \<not> fst res
             then (sinks st)(a := \<lparr>abOffset = Some lastOffset,
                                    writableHandler = Some (data, headers (response p))\<rparr>)
             else sinks st
         | None \<Rightarrow> sinks st) \<and>
      on_headers t1 t2 code msg hs ebs st =
        st\<lparr>pendingRequests :=
             (if ebs = Some 0 then ps
              else p\<lparr>response := (response p)\<lparr>statusCode := Some code, statusMessage := msg,
                      headers := hs,
                      metadata := (metadata (response p))\<lparr>headersTime := Some t1\<rparr>\<rparr>\<rparr> # ps)\<rparr>"
    using head_mutations [of st p ps] addBody_effects [of st p ps] on_headers_head [of st p ps]
    by blast
  have g: "trace (state_of (on_body_chunk t data isLast lastOffset res st)) =
     trace (state_of (addBody data lastOffset res st)) \<and>
   sinks (state_of (on_body_chunk t data isLast lastOffset res st)) =
     sinks (state_of (addBody data lastOffset res st)) \<and>
   pendingRequests (state_of (on_body_chunk t data isLast lastOffset res st)) =
     (if isLast \<and> thrown (addBody data lastOffset res st) = None
      then tl (pendingRequests (state_of (addBody data lastOffset res st)))
      else pendingRequests (state_of (addBody data lastOffset res st)))"
    by (rule on_body_chunk_head)
  have e: "pendingRequests (snd (terminateRequest now st)) = tl (pendingRequests st) \<and>
   map_option callback (fst (terminateRequest now st)) = map_option callback (peek st) \<and>
   tl (pendingRequests (setStatus code msg st)) = tl (pendingRequests st) \<and>
   queue_order (setStatus code msg st) = queue_order st \<and>
   tl (pendingRequests (setHeaders now hs st)) = tl (pendingRequests st) \<and>
   queue_order (setHeaders now hs st) = queue_order st \<and>
   tl (pendingRequests (state_of (addByteCount n st))) = tl (pendingRequests st) \<and>
   queue_order (state_of (addByteCount n st)) = queue_order st \<and>
   tl (pendingRequests (state_of (addBody data lastOffset res st))) = tl (pendingRequests st) \<and>
   queue_order (state_of (addBody data lastOffset res st)) = queue_order st"
    by (simp add: terminateRequest_head tail_setStatus tail_setHeaders tail_addByteCount
        tail_addBody)
  have f: "trace (setStatus code msg st) = trace st \<and> sinks (setStatus code msg st) = sinks st \<and>
   trace (setHeaders now hs st) = trace st \<and> sinks (setHeaders now hs st) = sinks st \<and>
   trace (state_of (addByteCount n st)) = trace st \<and>
   sinks (state_of (addByteCount n st)) = sinks st \<and>
   trace (snd (terminateRequest now st)) = trace st \<and>
   sinks (snd (terminateRequest now st)) = sinks st"
    by (simp add: addByteCount_frame)
  from a b c d e f g show ?thesis by blast
qed

text \<open>
  One proxied request queued: a second is scheduled, the first answered with a 204, a
  third scheduled; a chunk for the first goes to its sink 3. On an empty pipeline a
  chunk changes nothing.
\<close>

theorem fifo_head_of_line_witness:
  "thrown (scheduleSend (1, 0) plain_request 4 14 one_proxied) = None \<and>
   pendingRequests (state_of (scheduleSend (1, 0) plain_request 4 14 one_proxied)) =
     pendingRequests one_proxied @ [new_request (1, 0) plain_request 4] \<and>
   queue_order one_proxied = [2] \<and>
   queue_order (run [ScheduleSend (1, 0) plain_request 4 14,
                     Headers (2, 0) (2, 1) 204 ''No Content'' [] (Some 0),
                     ScheduleSend (3, 0) plain_request 5 15] one_proxied) = [4, 5] \<and>
   pendingRequests one_proxied = new_request (0, 0) proxied_request 2 # [] \<and>
   trace (state_of (addBody [1, 2, 3] 0 (True, False) one_proxied)) =
     trace one_proxied @ [TryEnd 3 [1, 2, 3] None] \<and>
   pendingRequests (Pipeline 5) = [] \<and>
   state_of (addBody [1, 2, 3] 0 (True, False) (Pipeline 5)) = Pipeline 5"
proof -
  have q: "pendingRequests one_proxied = new_request (0, 0) proxied_request 2 # []"
    by (simp add: one_proxied_def Pipeline_def scheduleSend_def emit_def Let_def)
  have r: "pendingRequests (Pipeline 5) = []" by (simp add: Pipeline_def)
  have o: "queue_order (run [ScheduleSend (1, 0) plain_request 4 14,
                     Headers (2, 0) (2, 1) 204 ''No Content'' [] (Some 0),
                     ScheduleSend (3, 0) plain_request 5 15] one_proxied) = [4, 5]"
    by (simp add: one_proxied_def queue_order_def Pipeline_def scheduleSend_def emit_def
        on_headers_def setStatus_def setHeaders_def update_head_def peek_def
        terminateRequest_def new_request_def Let_def)
  have t: "thrown (scheduleSend (1, 0) plain_request 4 14 one_proxied) = None"
    by (simp add: one_proxied_def Pipeline_def scheduleSend_def emit_def Let_def)
  from fifo_head_of_line [of "(1, 0)" plain_request 4 14 one_proxied 200 "''OK''" "[]" 3
      "[1, 2, 3]" 0 "(True, False)" "[]" "new_request (0, 0) proxied_request 2" "[]"
      "(2, 0)" "(2, 1)" None "(2, 2)" False]
    fifo_head_of_line [of "(1, 0)" plain_request 4 14 "Pipeline 5" 200 "''OK''" "[]" 3
      "[1, 2, 3]" 0 "(True, False)" "[]" "new_request (0, 0) proxied_request 2" "[]"
      "(2, 0)" "(2, 1)" None "(2, 2)" False]
  show ?thesis using q r o t
    by (simp add: queue_order_def new_request_def proxied_request_def)
qed

section \<open>Byte accounting\<close>

lemma on_body_chunk_not_last:
  "state_of (on_body_chunk t data False lastOffset res st) =
     state_of (addBody data lastOffset res st)"
  by (cases "addBody data lastOffset res st") (simp_all add: on_body_chunk_def)

lemma run_chunks:
  "pendingRequests st = p # ps \<Longrightarrow>
     \<exists>q. pendingRequests (run (map chunk_event cs) st) = q # ps \<and> callback q = callback p \<and>
       bytes (metadata (response q)) =
         bytes (metadata (response p)) + sum_list (map chunk_length cs)"
proof (induction cs arbitrary: st p)
  case Nil
  then show ?case by simp
next
  case (Cons c cs)
  obtain t data lastOffset res where c: "c = (t, data, lastOffset, res)"
    by (cases c) auto
  define p1 where "p1 = p\<lparr>response := (response p)\<lparr>metadata :=
      (metadata (response p))\<lparr>bytes := bytes (metadata (response p)) + length data\<rparr>\<rparr>\<rparr>"
  define st1 where "st1 = state_of (addBody data lastOffset res st)"
  have q1: "pendingRequests st1 = p1 # ps"
    using Cons.prems by (simp add: st1_def p1_def pending_addBody)
  have r: "run (map chunk_event (c # cs)) st = run (map chunk_event cs) st1"
    by (simp add: c chunk_event_def on_body_chunk_not_last st1_def)
  from Cons.IH [OF q1] obtain q where
    "pendingRequests (run (map chunk_event cs) st1) = q # ps" "callback q = callback p1"
    "bytes (metadata (response q)) = bytes (metadata (response p1)) + sum_list (map chunk_length cs)"
    by blast
  then have "\<exists>q. pendingRequests (run (map chunk_event cs) st1) = q # ps \<and>
      callback q = callback p \<and>
      bytes (metadata (response q)) =
        bytes (metadata (response p)) + sum_list (map chunk_length (c # cs))"
    by (simp add: c chunk_length_def p1_def)
  then show ?case unfolding r .
qed

text \<open>
  C9. A new record counts 0 bytes. After any series of body chunks that are not the
  last, the first record's \<^verbatim>\<open>bytes\<close> has grown by the sum of the chunks' lengths, and the
  records behind it are as they were; after one more chunk, the record that
  \<^verbatim>\<open>terminateRequest\<close> takes out counts that chunk as well.
\<close>

theorem byte_accounting:
  assumes "pendingRequests st = p # ps"
  shows "bytes (metadata (response (new_request now req c))) = 0 \<and>
    (\<exists>q. pendingRequests (run (map chunk_event cs) st) = q # ps \<and> callback q = callback p \<and>
       bytes (metadata (response q)) =
         bytes (metadata (response p)) + sum_list (map chunk_length cs)) \<and>
    (\<exists>q. fst (terminateRequest t
               (state_of (addBody data lastOffset res (run (map chunk_event cs) st)))) = Some q \<and>
       callback q = callback p \<and>
       bytes (metadata (response q)) =
         bytes (metadata (response p)) + sum_list (map chunk_length cs) + length data)"
proof -
  obtain q where q: "pendingRequests (run (map chunk_event cs) st) = q # ps"
    "callback q = callback p"
    "bytes (metadata (response q)) = bytes (metadata (response p)) + sum_list (map chunk_length cs)"
    using run_chunks [OF assms, of cs] by blast
  have "\<exists>q'. fst (terminateRequest t
               (state_of (addBody data lastOffset res (run (map chunk_event cs) st)))) = Some q' \<and>
       callback q' = callback p \<and>
       bytes (metadata (response q')) =
         bytes (metadata (response p)) + sum_list (map chunk_length cs) + length data"
    using q by (simp add: terminateRequest_def pending_addBody Let_def)
  with q show ?thesis by (simp add: new_request_def)
qed

text \<open>Chunks of 3 and 2 bytes to a new record: 5 bytes.\<close>

theorem byte_accounting_witness:
  "pendingRequests one_proxied = [new_request (0, 0) proxied_request 2] \<and>
   map (\<lambda>q. bytes (metadata (response q)))
     (pendingRequests (run (map chunk_event
        [((1, 0), [1, 2, 3], 0, (True, False)), ((1, 5), [4, 5], 3, (False, False))])
        one_proxied)) = [5]"
proof -
  have q: "pendingRequests one_proxied = new_request (0, 0) proxied_request 2 # []"
    by (simp add: one_proxied_def Pipeline_def scheduleSend_def emit_def Let_def)
  from byte_accounting [OF q, of "(0, 0)" proxied_request 2
      "[((1, 0), [1, 2, 3], 0, (True, False)), ((1, 5), [4, 5], 3, (False, False))]"
      "(2, 0)" "[]" 5 "(True, True)"]
  show ?thesis using q by (auto simp add: chunk_length_def new_request_def)
qed

section \<open>Body relay and backpressure\<close>







end
